theory Spec2Isabelle
  imports Main
begin

section \<open>Python values used by qm.py\<close>

text \<open>
  The exceptions the code of \<^verbatim>\<open>qm.py\<close> can raise: an out-of-range subscript
  (\<^verbatim>\<open>IndexError\<close>), \<^verbatim>\<open>list.index\<close> on a missing element (\<^verbatim>\<open>ValueError\<close>) and
  unbounded recursion (\<^verbatim>\<open>RecursionError\<close>). A function that can raise returns
  \<open>py_error + 'a\<close>, with \<open>Inl\<close> for the exception.
\<close>

datatype py_error = IndexError | ValueError | RecursionError

text \<open>The digits of \<^verbatim>\<open>bin(n)\<close> for a non-negative \<open>n\<close>, without the prefix.\<close>

fun bin_digits :: "nat \<Rightarrow> string" where
  "bin_digits n =
     (if n < 2 then [if n = 0 then CHR ''0'' else CHR ''1'']
      else bin_digits (n div 2) @ [if n mod 2 = 0 then CHR ''0'' else CHR ''1''])"

declare bin_digits.simps [simp del]

text \<open>\<^verbatim>\<open>bin(v)\<close>: \<^verbatim>\<open>'0b...'\<close>, and \<^verbatim>\<open>'-0b...'\<close> for a negative integer.\<close>

definition bin :: "int \<Rightarrow> string" where
  "bin v = (if v < 0 then ''-0b'' @ bin_digits (nat (- v)) else ''0b'' @ bin_digits (nat v))"

text \<open>\<^verbatim>\<open>s.rjust(width, c)\<close> pads on the left and never truncates.\<close>

definition rjust :: "nat \<Rightarrow> char \<Rightarrow> string \<Rightarrow> string" where
  "rjust width c s = replicate (width - length s) c @ s"

text \<open>\<^verbatim>\<open>s.count(c)\<close> for a one-character \<open>c\<close>.\<close>

definition count_char :: "char \<Rightarrow> string \<Rightarrow> nat" where
  "count_char c s = length (filter (\<lambda>x. x = c) s)"

text \<open>\<^verbatim>\<open>xs.index(x)\<close>: the first position of \<open>x\<close>, \<open>None\<close> where Python raises.\<close>

fun index_of :: "'a list \<Rightarrow> 'a \<Rightarrow> nat option" where
  "index_of [] x = None"
| "index_of (y # ys) x = (if y = x then Some 0 else map_option Suc (index_of ys x))"


section \<open>class Minterm\<close>

text \<open>
  The fields \<^verbatim>\<open>_values\<close>, \<^verbatim>\<open>_value\<close> and \<^verbatim>\<open>_used\<close>. The constructor sorts the list of
  covered values and clears the flag.
\<close>

record minterm =
  m_values :: "int list"
  m_value :: string
  m_used :: bool

definition Minterm :: "int list \<Rightarrow> string \<Rightarrow> minterm" where
  "Minterm vs v = \<lparr>m_values = sort vs, m_value = v, m_used = False\<rparr>"

text \<open>\<^verbatim>\<open>__eq__\<close> compares the pattern and the list of covered values, not the flag.\<close>

definition minterm_eq :: "minterm \<Rightarrow> minterm \<Rightarrow> bool" where
  "minterm_eq a b = (m_value a = m_value b \<and> m_values a = m_values b)"

text \<open>\<^verbatim>\<open>term in terms\<close> on a list of minterms goes through \<^verbatim>\<open>__eq__\<close>.\<close>

definition minterm_in :: "minterm \<Rightarrow> minterm list \<Rightarrow> bool" where
  "minterm_in t ts = list_ex (minterm_eq t) ts"

definition use :: "minterm \<Rightarrow> minterm" where
  "use m = m\<lparr>m_used := True\<rparr>"

definition used :: "minterm \<Rightarrow> bool" where
  "used m = m_used m"

text \<open>
  The loop of \<^verbatim>\<open>combine\<close> over the positions of the receiver's pattern, with the
  counter \<open>diff\<close> and the string \<open>result\<close>. Both patterns are read at the same position, so
  the two strings are walked together; reading the argument's pattern past its end raises.
  The loop returns early once \<open>diff\<close> exceeds one.
\<close>

fun combine_scan :: "string \<Rightarrow> string \<Rightarrow> nat \<Rightarrow> string \<Rightarrow> py_error + string option" where
  "combine_scan [] ys diff result = Inr (Some result)"
| "combine_scan (x # xs) [] diff result = Inl IndexError"
| "combine_scan (x # xs) (y # ys) diff result =
     (let diff' = (if x \<noteq> y then diff + 1 else diff);
          result' = (if x \<noteq> y then result @ ''-'' else result @ [x])
      in if diff' > 1 then Inr None else combine_scan xs ys diff' result')"

text \<open>
  \<^verbatim>\<open>combine\<close> reads both operands and builds a new term; it assigns to no field of
  either operand.
\<close>

definition combine :: "minterm \<Rightarrow> minterm \<Rightarrow> py_error + minterm option" where
  "combine self other =
     (if m_value self = m_value other \<or> m_values self = m_values other then Inr None
      else case combine_scan (m_value self) (m_value other) 0 [] of
             Inl e \<Rightarrow> Inl e
           | Inr None \<Rightarrow> Inr None
           | Inr (Some result) \<Rightarrow> Inr (Some (Minterm (m_values self @ m_values other) result)))"


section \<open>class QM\<close>

record qm =
  qm_variables :: "string list"
  qm_values :: "int list"
  qm_dont_cares :: "int list"
  qm_all_values :: "int list"
  qm_is_maxterm :: bool
  qm_function :: string

definition get_bits :: "qm \<Rightarrow> int \<Rightarrow> string" where
  "get_bits self v = rjust (length (qm_variables self)) CHR ''0'' (drop 2 (bin v))"

subsection \<open>Grouping\<close>

text \<open>The loop of \<^verbatim>\<open>__initial_group\<close> over \<^verbatim>\<open>_all_values\<close>; \<^verbatim>\<open>groups[count]\<close> raises
  when the count of ones is not an index of \<open>groups\<close>.\<close>

fun place_values :: "qm \<Rightarrow> int list \<Rightarrow> minterm list list \<Rightarrow> py_error + minterm list list" where
  "place_values self [] groups = Inr groups"
| "place_values self (v # vs) groups =
     (let count = count_char CHR ''1'' (get_bits self v)
      in if count < length groups
         then place_values self vs
                (groups[count := groups ! count @ [Minterm [v] (get_bits self v)]])
         else Inl IndexError)"

definition initial_group :: "qm \<Rightarrow> py_error + minterm list list" where
  "initial_group self =
     place_values self (qm_all_values self) (replicate (length (qm_variables self) + 1) [])"

subsection \<open>The cover search\<close>

text \<open>The subset of the candidates selected by the ones of the padded binary string of
  \<open>i\<close>. For \<open>i\<close> below \<open>2 ^ length prime_implicants\<close> the string has one character per
  candidate, so \<^verbatim>\<open>prime_implicants[index]\<close> is always in range and the two lists are
  walked together.\<close>

definition subset_of :: "minterm list \<Rightarrow> nat \<Rightarrow> minterm list" where
  "subset_of prime_implicants i =
     (let bin_value = rjust (length prime_implicants) CHR ''0'' (drop 2 (bin (int i)))
      in map snd (filter (\<lambda>(c, p). c = CHR ''1'') (zip bin_value prime_implicants)))"

text \<open>The values of \<open>vals\<close> that a subset covers, each once, in order of first occurrence.\<close>

fun add_values :: "int list \<Rightarrow> int list \<Rightarrow> int list \<Rightarrow> int list" where
  "add_values vals [] temp_values = temp_values"
| "add_values vals (v # vs) temp_values =
     add_values vals vs
       (if v \<notin> set temp_values \<and> v \<in> set vals then temp_values @ [v] else temp_values)"

fun covered_values :: "int list \<Rightarrow> minterm list \<Rightarrow> int list \<Rightarrow> int list" where
  "covered_values vals [] temp_values = temp_values"
| "covered_values vals (implicant # rest) temp_values =
     covered_values vals rest (add_values vals (m_values implicant) temp_values)"

text \<open>The second loop of \<^verbatim>\<open>__power_set\<close>, with the running \<open>min_set\<close>.\<close>

fun select_min :: "int list \<Rightarrow> minterm list list \<Rightarrow> minterm list \<Rightarrow> minterm list" where
  "select_min vals [] min_set = min_set"
| "select_min vals (current_set # rest) min_set =
     select_min vals rest
       (if sort (covered_values vals current_set []) = vals
             \<and> length current_set < length min_set
        then current_set else min_set)"

definition power_set :: "int list \<Rightarrow> minterm list \<Rightarrow> py_error + minterm list" where
  "power_set vals prime_implicants =
     (let subsets = map (subset_of prime_implicants) [1 ..< 2 ^ length prime_implicants]
      in case subsets of
           [] \<Rightarrow> Inl IndexError
         | first # _ \<Rightarrow> Inr (select_min vals subsets first))"

subsection \<open>Prime implicants\<close>

text \<open>
  The two nested loops over \<open>group1\<close> and \<open>group2\<close>. The terms are objects whose flag the
  loop sets, so each loop returns the terms it went through with their flags, next to the
  new group.
\<close>

fun compare_term :: "minterm \<Rightarrow> minterm list \<Rightarrow> minterm list
    \<Rightarrow> py_error + (minterm \<times> minterm list \<times> minterm list)" where
  "compare_term term1 [] new_group = Inr (term1, [], new_group)"
| "compare_term term1 (term2 # group2) new_group =
     (case combine term1 term2 of
        Inl e \<Rightarrow> Inl e
      | Inr None \<Rightarrow>
          (case compare_term term1 group2 new_group of
             Inl e \<Rightarrow> Inl e
           | Inr (t1, g2, ng) \<Rightarrow> Inr (t1, term2 # g2, ng))
      | Inr (Some term3) \<Rightarrow>
          (case compare_term (use term1) group2
                  (if \<not> minterm_in term3 new_group then new_group @ [term3] else new_group) of
             Inl e \<Rightarrow> Inl e
           | Inr (t1, g2, ng) \<Rightarrow> Inr (t1, use term2 # g2, ng)))"

fun compare_group :: "minterm list \<Rightarrow> minterm list \<Rightarrow> minterm list
    \<Rightarrow> py_error + (minterm list \<times> minterm list \<times> minterm list)" where
  "compare_group [] group2 new_group = Inr ([], group2, new_group)"
| "compare_group (term1 # group1) group2 new_group =
     (case compare_term term1 group2 new_group of
        Inl e \<Rightarrow> Inl e
      | Inr (t1, g2, ng) \<Rightarrow>
          (case compare_group group1 g2 ng of
             Inl e \<Rightarrow> Inl e
           | Inr (g1, g2', ng') \<Rightarrow> Inr (t1 # g1, g2', ng')))"

text \<open>The loop over \<open>comparisons\<close>: the groups with their flags, and \<open>new_groups\<close>.\<close>

fun compare_groups :: "minterm list list
    \<Rightarrow> py_error + (minterm list list \<times> minterm list list)" where
  "compare_groups [] = Inr ([], [])"
| "compare_groups [g] = Inr ([g], [])"
| "compare_groups (group1 # group2 # rest) =
     (case compare_group group1 group2 [] of
        Inl e \<Rightarrow> Inl e
      | Inr (g1, g2, ng) \<Rightarrow>
          (case compare_groups (g2 # rest) of
             Inl e \<Rightarrow> Inl e
           | Inr (gs, ngs) \<Rightarrow> Inr (g1 # gs, ng # ngs)))"

text \<open>\<^verbatim>\<open>if not term.used() and term not in unused: unused.append(term)\<close> over a list.\<close>

fun collect_unused :: "minterm list \<Rightarrow> minterm list \<Rightarrow> minterm list" where
  "collect_unused [] unused = unused"
| "collect_unused (t # ts) unused =
     collect_unused ts (if \<not> used t \<and> \<not> minterm_in t unused then unused @ [t] else unused)"

fun collect_groups :: "minterm list list \<Rightarrow> minterm list \<Rightarrow> minterm list" where
  "collect_groups [] unused = unused"
| "collect_groups (g # gs) unused = collect_groups gs (collect_unused g unused)"

text \<open>
  \<^verbatim>\<open>__get_prime_implicants\<close>. On an empty list of groups the Python calls itself on an
  empty list again, without end.
\<close>

function get_prime_implicants :: "minterm list list \<Rightarrow> py_error + minterm list" where
  "get_prime_implicants groups =
     (if length groups = 1 then Inr (hd groups)
      else if groups = [] then Inl RecursionError
      else case compare_groups groups of
             Inl e \<Rightarrow> Inl e
           | Inr (groups', new_groups) \<Rightarrow>
               (case get_prime_implicants new_groups of
                  Inl e \<Rightarrow> Inl e
                | Inr deeper \<Rightarrow> Inr (collect_unused deeper (collect_groups groups' []))))"
  by pat_completeness auto
termination
proof (relation "measure length")
  show "wf (measure length)" by simp
next
  fix groups :: "minterm list list" and x2 x y
  assume ne: "groups \<noteq> []" and cg: "compare_groups groups = Inr x2" and x: "(x, y) = x2"
  have len: "\<And>r. compare_groups gs = Inr r \<Longrightarrow> gs \<noteq> [] \<Longrightarrow> Suc (length (snd r)) = length gs"
    for gs
  proof (induction gs rule: compare_groups.induct)
    case 1
    then show ?case by simp
  next
    case (2 g)
    then show ?case by auto
  next
    case (3 group1 group2 rest)
    from "3.prems"(1) obtain g1 g2 ng gs ngs where
      a: "compare_group group1 group2 [] = Inr (g1, g2, ng)" and
      b: "compare_groups (g2 # rest) = Inr (gs, ngs)" and
      r: "r = (g1 # gs, ng # ngs)"
      by (auto split: sum.splits)
    from "3.IH"[OF a refl refl b] have "Suc (length ngs) = length (g2 # rest)" by simp
    with r show ?case by simp
  qed
  from len[OF cg ne] x show "(y, groups) \<in> measure length" by auto
qed

declare get_prime_implicants.simps [simp del]

subsection \<open>Solving\<close>

text \<open>The inner loop of the essential scan, with the counter \<open>uses\<close> and the term \<open>last\<close>
  (\<open>None\<close> at the start).\<close>

fun count_uses :: "int \<Rightarrow> minterm list \<Rightarrow> nat \<Rightarrow> minterm option \<Rightarrow> nat \<times> minterm option" where
  "count_uses v [] uses last' = (uses, last')"
| "count_uses v (m # ms) uses last' =
     (if v \<in> set (m_values m) then count_uses v ms (uses + 1) (Some m)
      else count_uses v ms uses last')"

text \<open>\<^verbatim>\<open>values_used[self._values.index(v)] = True\<close> for the covered values that are no
  don't-care; \<^verbatim>\<open>index\<close> raises on a value that is not listed.\<close>

fun mark_values :: "qm \<Rightarrow> int list \<Rightarrow> bool list \<Rightarrow> py_error + bool list" where
  "mark_values self [] values_used = Inr values_used"
| "mark_values self (v # vs) values_used =
     (if v \<notin> set (qm_dont_cares self)
      then (case index_of (qm_values self) v of
              None \<Rightarrow> Inl ValueError
            | Some k \<Rightarrow> mark_values self vs (values_used[k := True]))
      else mark_values self vs values_used)"

text \<open>The loop over the listed values, with the essential implicants found so far and
  \<open>values_used\<close>. While \<open>last\<close> is still \<^verbatim>\<open>None\<close> the counter is 0, so the test
  \<^verbatim>\<open>uses == 1\<close> fails and the loop goes on.\<close>

fun essential_scan :: "qm \<Rightarrow> minterm list \<Rightarrow> int list \<Rightarrow> minterm list \<Rightarrow> bool list
    \<Rightarrow> py_error + (minterm list \<times> bool list)" where
  "essential_scan self prime_implicants [] essential values_used =
     Inr (essential, values_used)"
| "essential_scan self prime_implicants (v # vs) essential values_used =
     (case count_uses v prime_implicants 0 None of
        (uses, Some last') \<Rightarrow>
          if uses = 1 \<and> \<not> minterm_in last' essential
          then (case mark_values self (m_values last') values_used of
                  Inl e \<Rightarrow> Inl e
                | Inr values_used' \<Rightarrow>
                    essential_scan self prime_implicants vs (essential @ [last']) values_used')
          else essential_scan self prime_implicants vs essential values_used
      | (uses, None) \<Rightarrow> essential_scan self prime_implicants vs essential values_used)"

text \<open>The rest of \<^verbatim>\<open>__solve\<close>, from the prime implicants on.\<close>

definition solve_from :: "qm \<Rightarrow> minterm list \<Rightarrow> py_error + minterm list" where
  "solve_from self prime_implicants =
     (case essential_scan self prime_implicants (qm_values self) []
             (replicate (length (qm_values self)) False) of
        Inl e \<Rightarrow> Inl e
      | Inr (essential, values_used) \<Rightarrow>
          if count_list values_used False = 0 then Inr essential
          else
            let remaining =
                  filter (\<lambda>p. \<not> minterm_in p essential
                               \<and> length (filter (\<lambda>v. v \<notin> set (qm_dont_cares self)) (m_values p)) > 0)
                    prime_implicants
            in if length remaining = 1 then Inr (essential @ remaining)
               else (case power_set
                            (map (\<lambda>i. qm_values self ! i)
                               (filter (\<lambda>i. \<not> values_used ! i) [0 ..< length (qm_values self)]))
                            remaining of
                       Inl e \<Rightarrow> Inl e
                     | Inr min_set \<Rightarrow> Inr (essential @ min_set)))"

definition solve :: "qm \<Rightarrow> py_error + minterm list" where
  "solve self =
     (case initial_group self of
        Inl e \<Rightarrow> Inl e
      | Inr groups \<Rightarrow>
          (case get_prime_implicants groups of
             Inl e \<Rightarrow> Inl e
           | Inr prime_implicants \<Rightarrow> solve_from self prime_implicants))"

subsection \<open>Rendering\<close>

text \<open>The loop over the positions \<open>i\<close> of one implicant's pattern \<open>v\<close>;
  \<^verbatim>\<open>self._variables[i]\<close> raises when the pattern is longer than the list of variables.\<close>

fun render_bits :: "qm \<Rightarrow> string \<Rightarrow> nat list \<Rightarrow> string \<Rightarrow> py_error + string" where
  "render_bits self v [] result = Inr result"
| "render_bits self v (i # rest) result =
     (let r1 = (if v ! i = (if \<not> qm_is_maxterm self then CHR ''0'' else CHR ''1'')
                then result @ ''NOT '' else result)
      in if v ! i \<noteq> CHR ''-'' \<and> \<not> i < length (qm_variables self) then Inl IndexError
         else
           let r2 = (if v ! i \<noteq> CHR ''-'' then r1 @ qm_variables self ! i else r1);
               r3 = (if count_char CHR ''-'' (drop (i + 1) v) < length v - i - 1
                        \<and> v ! i \<noteq> CHR ''-''
                     then r2 @ (if \<not> qm_is_maxterm self then '' AND '' else '' OR '')
                     else r2)
           in render_bits self v rest r3)"

text \<open>The loop over the implicants; an implicant that is not the last one is followed by
  the joiner.\<close>

fun render_implicants :: "qm \<Rightarrow> minterm list \<Rightarrow> string \<Rightarrow> py_error + string" where
  "render_implicants self [] result = Inr result"
| "render_implicants self (implicant # rest) result =
     (let v = m_value implicant;
          paren = count_char CHR ''-'' v < length (qm_variables self);
          r1 = (if paren then result @ ''('' else result)
      in case render_bits self v [0 ..< length v] r1 of
           Inl e \<Rightarrow> Inl e
         | Inr r2 \<Rightarrow>
             let r3 = (if paren then r2 @ '')'' else r2);
                 r4 = (if rest \<noteq> []
                       then r3 @ (if \<not> qm_is_maxterm self then '' OR '' else '' AND '')
                       else r3)
             in render_implicants self rest r4)"

text \<open>\<^verbatim>\<open>__get_function\<close> after the call of \<^verbatim>\<open>__solve\<close>.\<close>

definition render :: "qm \<Rightarrow> minterm list \<Rightarrow> py_error + string" where
  "render self prime_implicants =
     (if length prime_implicants = 0 then Inr ''0''
      else if length prime_implicants = 1
              \<and> count_char CHR ''-'' (m_value (prime_implicants ! 0)) = length (qm_variables self)
      then Inr ''1''
      else render_implicants self prime_implicants [])"

text \<open>The private method \<^verbatim>\<open>__get_function\<close>.\<close>

definition compute_function :: "qm \<Rightarrow> py_error + string" where
  "compute_function self =
     (case solve self of Inl e \<Rightarrow> Inl e | Inr prime_implicants \<Rightarrow> render self prime_implicants)"

text \<open>The constructor stores its arguments (a missing list of don't-cares is the empty
  list), then the expression. \<open>QM_fields\<close> is the instance as \<^verbatim>\<open>__get_function\<close> finds
  it, its expression not yet assigned. An exception of \<^verbatim>\<open>__get_function\<close> leaves no
  instance.\<close>

definition QM_fields :: "string list \<Rightarrow> int list \<Rightarrow> int list option \<Rightarrow> bool \<Rightarrow> qm" where
  "QM_fields variables vals dont_cares is_maxterm =
     (let dcs = (case dont_cares of None \<Rightarrow> [] | Some d \<Rightarrow> d)
      in \<lparr>qm_variables = variables, qm_values = vals, qm_dont_cares = dcs,
          qm_all_values = vals @ dcs, qm_is_maxterm = is_maxterm, qm_function = []\<rparr>)"

definition QM :: "string list \<Rightarrow> int list \<Rightarrow> int list option \<Rightarrow> bool \<Rightarrow> py_error + qm" where
  "QM variables vals dont_cares is_maxterm =
     (let self = QM_fields variables vals dont_cares is_maxterm
      in case compute_function self of
           Inl e \<Rightarrow> Inl e
         | Inr f \<Rightarrow> Inr (self\<lparr>qm_function := f\<rparr>))"

text \<open>The public \<^verbatim>\<open>get_function\<close>: the stored string, and the instance as the call
  leaves it.\<close>

definition get_function :: "qm \<Rightarrow> string \<times> qm" where
  "get_function self = (qm_function self, self)"


section \<open>The meaning of an expression string\<close>

text \<open>
  The value of an expression string under an assignment of the variables, by the usual
  reading: words separated by blanks and parentheses, \<^verbatim>\<open>NOT\<close> binding tighter than
  \<^verbatim>\<open>AND\<close>, \<^verbatim>\<open>AND\<close> tighter than \<^verbatim>\<open>OR\<close>, the constants \<^verbatim>\<open>0\<close> and \<^verbatim>\<open>1\<close>. It is
  what a truth-table check of the output does; \<open>None\<close> is a string that does not parse
  or a variable without a value.
\<close>

datatype token = LPAR | RPAR | WORD string

definition flush_word :: "string \<Rightarrow> token list" where
  "flush_word w = (if w = [] then [] else [WORD w])"

fun tokenize :: "string \<Rightarrow> string \<Rightarrow> token list" where
  "tokenize [] w = flush_word w"
| "tokenize (c # cs) w =
     (if c = CHR '' '' then flush_word w @ tokenize cs []
      else if c = CHR ''('' then flush_word w @ LPAR # tokenize cs []
      else if c = CHR '')'' then flush_word w @ RPAR # tokenize cs []
      else tokenize cs (w @ [c]))"

fun eval_or :: "nat \<Rightarrow> (string \<Rightarrow> bool option) \<Rightarrow> token list \<Rightarrow> (bool \<times> token list) option"
and eval_and :: "nat \<Rightarrow> (string \<Rightarrow> bool option) \<Rightarrow> token list \<Rightarrow> (bool \<times> token list) option"
and eval_not :: "nat \<Rightarrow> (string \<Rightarrow> bool option) \<Rightarrow> token list \<Rightarrow> (bool \<times> token list) option"
where
  "eval_or 0 env ts = None"
| "eval_or (Suc n) env ts =
     (case eval_and n env ts of
        None \<Rightarrow> None
      | Some (b, rest) \<Rightarrow>
          (case rest of
             WORD w # rest' \<Rightarrow>
               if w = ''OR''
               then (case eval_or n env rest' of
                       None \<Rightarrow> None
                     | Some (b', rest'') \<Rightarrow> Some (b \<or> b', rest''))
               else Some (b, rest)
           | _ \<Rightarrow> Some (b, rest)))"
| "eval_and 0 env ts = None"
| "eval_and (Suc n) env ts =
     (case eval_not n env ts of
        None \<Rightarrow> None
      | Some (b, rest) \<Rightarrow>
          (case rest of
             WORD w # rest' \<Rightarrow>
               if w = ''AND''
               then (case eval_and n env rest' of
                       None \<Rightarrow> None
                     | Some (b', rest'') \<Rightarrow> Some (b \<and> b', rest''))
               else Some (b, rest)
           | _ \<Rightarrow> Some (b, rest)))"
| "eval_not 0 env ts = None"
| "eval_not (Suc n) env [] = None"
| "eval_not (Suc n) env (RPAR # ts) = None"
| "eval_not (Suc n) env (LPAR # ts) =
     (case eval_or n env ts of
        Some (b, RPAR # rest) \<Rightarrow> Some (b, rest)
      | _ \<Rightarrow> None)"
| "eval_not (Suc n) env (WORD w # ts) =
     (if w = ''NOT''
      then (case eval_not n env ts of None \<Rightarrow> None | Some (b, rest) \<Rightarrow> Some (\<not> b, rest))
      else if w = ''AND'' \<or> w = ''OR'' then None
      else if w = ''0'' then Some (False, ts)
      else if w = ''1'' then Some (True, ts)
      else (case env w of None \<Rightarrow> None | Some b \<Rightarrow> Some (b, ts)))"

definition eval_expr :: "(string \<Rightarrow> bool option) \<Rightarrow> string \<Rightarrow> bool option" where
  "eval_expr env s =
     (let ts = tokenize s []
      in case eval_or (3 * length ts + 3) env ts of
           Some (b, []) \<Rightarrow> Some b
         | _ \<Rightarrow> None)"

text \<open>The assignment that gives each variable its bit of the index \<open>i\<close>, the first
  variable taking the most significant bit, as \<^verbatim>\<open>__get_bits\<close> lays the bits out.\<close>

definition assignment :: "qm \<Rightarrow> int \<Rightarrow> string \<Rightarrow> bool option" where
  "assignment self i =
     map_of (zip (qm_variables self) (map (\<lambda>c. c = CHR ''1'') (get_bits self i)))"

text \<open>The positions at which two patterns of the same length differ.\<close>

definition diff_positions :: "string \<Rightarrow> string \<Rightarrow> nat list" where
  "diff_positions p q = filter (\<lambda>i. p ! i \<noteq> q ! i) [0 ..< length p]"






section \<open>Constant functions and the examples\<close>

text \<open>
  C9. The constructor checks nothing. With the one variable \<^verbatim>\<open>A\<close> and the value 3
  the bits are \<^verbatim>\<open>11\<close>, padded but not cut to one position; their two ones index a list
  of two groups at position 2, and the construction ends in an \<^verbatim>\<open>IndexError\<close>.
\<close>

theorem out_of_range_value_raises:
  "get_bits (QM_fields [''A''] [3] None False) 3 = ''11''
   \<and> count_char CHR ''1'' (get_bits (QM_fields [''A''] [3] None False) 3) = 2
   \<and> initial_group (QM_fields [''A''] [3] None False) = Inl IndexError
   \<and> QM [''A''] [3] None False = Inl IndexError"
  by code_simp

text \<open>Helper facts about rendering.\<close>

lemma render_empty: "render self [] = Inr ''0''"
  by (simp add: render_def)

lemma count_all_dashes:
  "list_all (\<lambda>c. c = CHR ''-'') v \<Longrightarrow> count_char CHR ''-'' v = length v"
  by (induction v) (auto simp: count_char_def)

text \<open>
  C7. With the variables \<^verbatim>\<open>A\<close>, \<^verbatim>\<open>B\<close> and no value the expression is exactly \<^verbatim>\<open>0\<close>;
  with the values 0, 1, 2, 3 it is exactly \<^verbatim>\<open>1\<close>. In general an empty list of
  implicants renders as \<^verbatim>\<open>0\<close>, and a single implicant whose pattern has one position per
  variable, each of them \<^verbatim>\<open>-\<close>, renders as \<^verbatim>\<open>1\<close>.
\<close>

theorem constant_cases:
  assumes "length (m_value m) = length (qm_variables self)"
    and "list_all (\<lambda>c. c = CHR ''-'') (m_value m)"
  shows "map_sum id (\<lambda>q. fst (get_function q)) (QM [''A'', ''B''] [] None False) = Inr ''0''
    \<and> map_sum id (\<lambda>q. fst (get_function q)) (QM [''A'', ''B''] [0, 1, 2, 3] None False)
        = Inr ''1''
    \<and> render self [] = Inr ''0''
    \<and> render self [m] = Inr ''1''"
proof -
  have a: "map_sum id (\<lambda>q. fst (get_function q)) (QM [''A'', ''B''] [] None False) = Inr ''0''"
    by code_simp
  have b: "map_sum id (\<lambda>q. fst (get_function q)) (QM [''A'', ''B''] [0, 1, 2, 3] None False)
      = Inr ''1''"
    by code_simp
  have c: "render self [m] = Inr ''1''"
    using assms count_all_dashes[of "m_value m"] by (simp add: render_def)
  from a b c render_empty show ?thesis by simp
qed

theorem constant_cases_witness:
  "solve (QM_fields [''A'', ''B''] [0, 1, 2, 3] None False) = Inr [Minterm [0, 1, 2, 3] ''--'']
   \<and> render (QM_fields [''A'', ''B''] [0, 1, 2, 3] None False) [Minterm [0, 1, 2, 3] ''--'']
       = Inr ''1''"
proof -
  have s: "solve (QM_fields [''A'', ''B''] [0, 1, 2, 3] None False)
      = Inr [Minterm [0, 1, 2, 3] ''--'']"
    by code_simp
  have h1: "length (m_value (Minterm [0, 1, 2, 3] ''--''))
      = length (qm_variables (QM_fields [''A'', ''B''] [0, 1, 2, 3] None False))"
    by code_simp
  have h2: "list_all (\<lambda>c. c = CHR ''-'') (m_value (Minterm [0, 1, 2, 3] ''--''))"
    by code_simp
  from constant_cases[OF h1 h2] s show ?thesis by simp
qed

text \<open>
  C6. For the variables \<^verbatim>\<open>A\<close>, \<^verbatim>\<open>B\<close>, \<^verbatim>\<open>C\<close> and the values 1, 3, 5, 7 in minterm mode
  the solver returns one implicant, of pattern \<^verbatim>\<open>--1\<close>, and the expression has the value
  of \<^verbatim>\<open>C\<close> under each of the eight assignments.
\<close>

theorem single_literal_example:
  "map_sum id (map m_value) (solve (QM_fields [''A'', ''B'', ''C''] [1, 3, 5, 7] None False))
     = Inr [''--1'']
   \<and> (case QM [''A'', ''B'', ''C''] [1, 3, 5, 7] None False of
        Inl e \<Rightarrow> False
      | Inr q \<Rightarrow>
          map (\<lambda>i. eval_expr (assignment q i) (fst (get_function q))) [0, 1, 2, 3, 4, 5, 6, 7]
            = map (\<lambda>i. assignment q i ''C'') [0, 1, 2, 3, 4, 5, 6, 7]
          \<and> map (\<lambda>i. assignment q i ''C'') [0, 1, 2, 3, 4, 5, 6, 7]
            = [Some False, Some True, Some False, Some True,
               Some False, Some True, Some False, Some True])"
  by code_simp


section \<open>The stored expression\<close>

text \<open>
  C8. On an instance that the constructor returned, two calls of \<^verbatim>\<open>get_function\<close> in a
  row return the same string, the one \<^verbatim>\<open>__get_function\<close> computed during construction,
  and leave the instance as it was.
\<close>

theorem get_function_idempotent:
  assumes "QM variables vals dont_cares is_maxterm = Inr self"
    and "get_function self = (s1, self1)" and "get_function self1 = (s2, self2)"
  shows "s1 = s2 \<and> self2 = self
     \<and> compute_function (QM_fields variables vals dont_cares is_maxterm) = Inr s1"
  using assms by (auto simp: QM_def get_function_def Let_def split: sum.splits)

theorem get_function_idempotent_witness:
  "QM [''A''] [1] None False
     = Inr \<lparr>qm_variables = [''A''], qm_values = [1], qm_dont_cares = [], qm_all_values = [1],
            qm_is_maxterm = False, qm_function = ''(A)''\<rparr>
   \<and> compute_function (QM_fields [''A''] [1] None False) = Inr ''(A)''"
proof -
  let ?q = "\<lparr>qm_variables = [''A''], qm_values = [1], qm_dont_cares = [], qm_all_values = [1],
            qm_is_maxterm = False, qm_function = ''(A)''\<rparr>"
  have h1: "QM [''A''] [1] None False = Inr ?q" by code_simp
  have h2: "get_function ?q = (''(A)'', ?q)" by (simp add: get_function_def)
  from get_function_idempotent[OF h1 h2 h2] h1 show ?thesis by simp
qed


section \<open>The cover search on a cyclic chart\<close>

text \<open>Whatever the candidates and the values still to cover, as long as there are some
  of each, the search returns the last candidate alone: the first enumerated subset holds
  just that candidate, and no subset is shorter.\<close>

lemma subset_of_one:
  assumes "prime_implicants \<noteq> []"
  shows "subset_of prime_implicants 1 = [last prime_implicants]"
proof -
  let ?n = "length prime_implicants"
  have b: "drop 2 (bin (int 1)) = ''1''"
    by (simp add: bin_def bin_digits.simps)
  from assms have n: "?n - length ''1'' = length (butlast prime_implicants)" by simp
  have split: "prime_implicants = butlast prime_implicants @ [last prime_implicants]"
    using assms by simp
  have "zip (replicate (length (butlast prime_implicants)) CHR ''0'' @ ''1'')
            (butlast prime_implicants @ [last prime_implicants])
        = zip (replicate (length (butlast prime_implicants)) CHR ''0'') (butlast prime_implicants)
          @ [(CHR ''1'', last prime_implicants)]"
    by simp
  moreover have "filter (\<lambda>(c, p). c = CHR ''1'')
      (zip (replicate (length (butlast prime_implicants)) CHR ''0'') (butlast prime_implicants)) = []"
    by (auto simp: filter_empty_conv dest!: set_zip_leftD)
  ultimately have "map snd (filter (\<lambda>(c, p). c = CHR ''1'')
      (zip (replicate (length (butlast prime_implicants)) CHR ''0'' @ ''1'')
           (butlast prime_implicants @ [last prime_implicants]))) = [last prime_implicants]"
    by simp
  with split have "map snd (filter (\<lambda>(c, p). c = CHR ''1'')
      (zip (replicate (length (butlast prime_implicants)) CHR ''0'' @ ''1'') prime_implicants))
      = [last prime_implicants]"
    by simp
  then show ?thesis
    unfolding subset_of_def Let_def rjust_def b n .
qed

lemma select_min_singleton:
  "vals \<noteq> [] \<Longrightarrow> length min_set = 1 \<Longrightarrow> select_min vals subsets min_set = min_set"
  by (induction subsets) auto

lemma power_set_last:
  assumes "vals \<noteq> []" and "prime_implicants \<noteq> []"
  shows "power_set vals prime_implicants = Inr [last prime_implicants]"
proof -
  from assms(2) have "0 < length prime_implicants" by simp
  then have "(1::nat) < 2 ^ length prime_implicants"
    using one_less_power[of "2::nat" "length prime_implicants"] by simp
  then have "[1 ..< 2 ^ length prime_implicants] = 1 # [Suc 1 ..< 2 ^ length prime_implicants]"
    by (rule upt_conv_Cons)
  then have "map (subset_of prime_implicants) [1 ..< 2 ^ length prime_implicants]
      = [last prime_implicants]
        # map (subset_of prime_implicants) [Suc 1 ..< 2 ^ length prime_implicants]"
    using subset_of_one[OF assms(2)] by (simp only: list.map)
  then show ?thesis
    using select_min_singleton[OF assms(1), of "[last prime_implicants]"]
    by (simp add: power_set_def)
qed

text \<open>
  C2. The values 0, 1, 2, 5, 6, 7 over three variables have six prime implicants, none of
  them essential. The cover search is given all six values and all six implicants and
  returns the last implicant alone: it covers 6 and 7 only, while three of the
  candidates cover all six values. The running minimum starts as the first enumerated
  subset, which has one member, and a subset replaces it only if it is shorter.
\<close>

theorem cover_search_returns_last_candidate:
  "solve (QM_fields [''A'', ''B'', ''C''] [0, 1, 2, 5, 6, 7] None False)
     = Inr [Minterm [6, 7] ''11-'']
   \<and> power_set [0, 1, 2, 5, 6, 7]
        [Minterm [0, 1] ''00-'', Minterm [0, 2] ''0-0'', Minterm [1, 5] ''-01'',
         Minterm [2, 6] ''-10'', Minterm [5, 7] ''1-1'', Minterm [6, 7] ''11-'']
     = Inr [Minterm [6, 7] ''11-'']
   \<and> sort (covered_values [0, 1, 2, 5, 6, 7] [Minterm [6, 7] ''11-''] []) = [6, 7]
   \<and> sort (covered_values [0, 1, 2, 5, 6, 7]
        [Minterm [0, 1] ''00-'', Minterm [2, 6] ''-10'', Minterm [5, 7] ''1-1''] [])
     = [0, 1, 2, 5, 6, 7]"
  by code_simp

text \<open>
  C1. For the same input the expression is \<^verbatim>\<open>(A AND B)\<close>. Under the assignments of the
  listed values 0, 1, 2 and 5 it is false.
\<close>

theorem unsound_expression:
  "(case QM [''A'', ''B'', ''C''] [0, 1, 2, 5, 6, 7] None False of
      Inl e \<Rightarrow> False
    | Inr q \<Rightarrow>
        fst (get_function q) = ''(A AND B)''
        \<and> map (\<lambda>i. eval_expr (assignment q i) (fst (get_function q))) [0, 1, 2, 5, 6, 7]
          = [Some False, Some False, Some False, Some False, Some True, Some True])"
  by code_simp


section \<open>Combining two terms\<close>

text \<open>
  C3. \<^verbatim>\<open>combine\<close> on the terms of patterns \<^verbatim>\<open>0\<close> and \<^verbatim>\<open>1\<close> returns the term of pattern
  \<^verbatim>\<open>-\<close>, and neither operand is marked used: the method sets no flag. The loop of
  \<^verbatim>\<open>__get_prime_implicants\<close> that calls it marks both operands itself.
\<close>

theorem combine_leaves_flags:
  "combine (Minterm [0] ''0'') (Minterm [1] ''1'') = Inr (Some (Minterm [0, 1] ''-''))
   \<and> used (Minterm [0] ''0'') = False \<and> used (Minterm [1] ''1'') = False
   \<and> compare_term (Minterm [0] ''0'') [Minterm [1] ''1''] []
       = Inr (use (Minterm [0] ''0''), [use (Minterm [1] ''1'')], [Minterm [0, 1] ''-''])"
  by code_simp

lemma diff_positions_Cons:
  "diff_positions (x # xs) (y # ys)
     = (if x \<noteq> y then [0] else []) @ map Suc (diff_positions xs ys)"
proof -
  have "[0 ..< length (x # xs)] = 0 # map Suc [0 ..< length xs]"
    by (simp add: upt_conv_Cons map_Suc_upt del: upt_Suc)
  then show ?thesis
    by (simp add: diff_positions_def filter_map comp_def del: upt_Suc)
qed

lemma diff_positions_Nil [simp]: "diff_positions [] ys = []"
  by (simp add: diff_positions_def)

lemma combine_scan_same_length:
  "length xs = length ys \<Longrightarrow> d \<le> 1 \<Longrightarrow>
   combine_scan xs ys d r =
     (if d + length (diff_positions xs ys) > 1 then Inr None
      else Inr (Some (r @ map (\<lambda>(x, y). if x \<noteq> y then CHR ''-'' else x) (zip xs ys))))"
proof (induction xs ys arbitrary: d r rule: list_induct2)
  case Nil
  then show ?case by simp
next
  case (Cons x xs y ys)
  show ?case
  proof (cases "x = y")
    case True
    with Cons.prems Cons.IH[of d "r @ [x]"] show ?thesis
      by (simp add: diff_positions_Cons)
  next
    case False
    show ?thesis
    proof (cases "d = 0")
      case True
      with False Cons.IH[of 1 "r @ ''-''"] show ?thesis
        by (simp add: diff_positions_Cons)
    next
      case False
      with \<open>x \<noteq> y\<close> Cons.prems show ?thesis
        by (simp add: diff_positions_Cons)
    qed
  qed
qed

lemma no_diff_same:
  assumes "length xs = length ys" and "diff_positions xs ys = []"
  shows "xs = ys"
  using assms
  by (induction xs ys rule: list_induct2) (auto simp: diff_positions_Cons split: if_splits)

lemma generalise_same: "map (\<lambda>(x, y). if x \<noteq> y then CHR ''-'' else x) (zip xs xs) = xs"
  by (induction xs) auto

lemma one_diff_generalised:
  "length xs = length ys \<Longrightarrow> diff_positions xs ys = [k] \<Longrightarrow>
   map (\<lambda>(x, y). if x \<noteq> y then CHR ''-'' else x) (zip xs ys) = xs[k := CHR ''-'']
   \<and> xs[k := CHR ''-''] = ys[k := CHR ''-'']"
proof (induction xs ys arbitrary: k rule: list_induct2)
  case Nil
  then show ?case by simp
next
  case (Cons x xs y ys)
  show ?case
  proof (cases "x = y")
    case True
    with Cons.prems obtain k' where k: "k = Suc k'" "diff_positions xs ys = [k']"
      by (auto simp: diff_positions_Cons)
    with True Cons.IH[of k'] show ?thesis by simp
  next
    case False
    with Cons.prems have k: "k = 0" "diff_positions xs ys = []"
      by (auto simp: diff_positions_Cons)
    from no_diff_same[OF Cons.hyps k(2)] have "xs = ys" .
    with False k(1) show ?thesis by (simp add: generalise_same)
  qed
qed

lemma same_no_diff: "diff_positions xs xs = []"
  by (simp add: diff_positions_def)

text \<open>
  C4, as the code has it. For two terms with patterns of the same length, \<^verbatim>\<open>combine\<close>
  returns a new term exactly when the patterns differ and the lists of covered values
  differ and the patterns differ at exactly one position. The new term's pattern is
  either parent's pattern with \<^verbatim>\<open>-\<close> at that position, its covered list is the sorted
  concatenation of the parents' lists, so its covered set is their union, and it is not
  marked used. In every other case \<^verbatim>\<open>combine\<close> returns nothing.
\<close>

theorem combine_one_position:
  assumes "length (m_value a) = length (m_value b)"
  shows "if m_value a \<noteq> m_value b \<and> m_values a \<noteq> m_values b
            \<and> length (diff_positions (m_value a) (m_value b)) = 1
         then \<exists>c k. combine a b = Inr (Some c)
                \<and> diff_positions (m_value a) (m_value b) = [k]
                \<and> m_value c = (m_value a)[k := CHR ''-'']
                \<and> m_value c = (m_value b)[k := CHR ''-'']
                \<and> m_values c = sort (m_values a @ m_values b)
                \<and> set (m_values c) = set (m_values a) \<union> set (m_values b)
                \<and> \<not> used c
         else combine a b = Inr None"
proof (cases "m_value a \<noteq> m_value b \<and> m_values a \<noteq> m_values b
            \<and> length (diff_positions (m_value a) (m_value b)) = 1")
  case True
  then obtain k where k: "diff_positions (m_value a) (m_value b) = [k]"
    by (cases "diff_positions (m_value a) (m_value b)") auto
  let ?r = "map (\<lambda>(x, y). if x \<noteq> y then CHR ''-'' else x) (zip (m_value a) (m_value b))"
  have "combine_scan (m_value a) (m_value b) 0 [] = Inr (Some ?r)"
    using combine_scan_same_length[OF assms, of 0 "[]"] k by simp
  with True have c: "combine a b = Inr (Some (Minterm (m_values a @ m_values b) ?r))"
    by (simp add: combine_def)
  from one_diff_generalised[OF assms k] c k True show ?thesis
    by (simp add: Minterm_def used_def)
next
  case False
  show ?thesis
  proof (cases "m_value a = m_value b \<or> m_values a = m_values b")
    case True
    then show ?thesis using False by (auto simp: combine_def)
  next
    case guard: False
    with False have n: "length (diff_positions (m_value a) (m_value b)) \<noteq> 1" by simp
    have "diff_positions (m_value a) (m_value b) \<noteq> []"
      using no_diff_same[OF assms] guard by auto
    with n have "length (diff_positions (m_value a) (m_value b)) > 1"
      by (cases "diff_positions (m_value a) (m_value b)") auto
    then have "combine_scan (m_value a) (m_value b) 0 [] = Inr None"
      using combine_scan_same_length[OF assms, of 0 "[]"] by simp
    with guard False show ?thesis by (simp add: combine_def)
  qed
qed

theorem combine_one_position_witness:
  "length (m_value (Minterm [0] ''00'')) = length (m_value (Minterm [1] ''01''))
   \<and> (\<exists>c k. combine (Minterm [0] ''00'') (Minterm [1] ''01'') = Inr (Some c)
         \<and> diff_positions ''00'' ''01'' = [k] \<and> m_value c = ''0-'' \<and> m_values c = [0, 1])"
proof -
  have h: "length (m_value (Minterm [0] ''00'')) = length (m_value (Minterm [1] ''01''))"
    by code_simp
  have g: "m_value (Minterm [0] ''00'') \<noteq> m_value (Minterm [1] ''01'')
      \<and> m_values (Minterm [0] ''00'') \<noteq> m_values (Minterm [1] ''01'')
      \<and> length (diff_positions (m_value (Minterm [0] ''00'')) (m_value (Minterm [1] ''01''))) = 1"
    by code_simp
  have v: "m_value (Minterm [0] ''00'') = ''00''" "m_value (Minterm [1] ''01'') = ''01''"
    "m_values (Minterm [0] ''00'') = [0]" "m_values (Minterm [1] ''01'') = [1]"
    by (simp_all add: Minterm_def)
  have d: "diff_positions ''00'' ''01'' = [1]" by code_simp
  from combine_one_position[OF h] g obtain c k where
    "combine (Minterm [0] ''00'') (Minterm [1] ''01'') = Inr (Some c)"
    "diff_positions (m_value (Minterm [0] ''00'')) (m_value (Minterm [1] ''01'')) = [k]"
    "m_value c = (m_value (Minterm [0] ''00''))[k := CHR ''-'']"
    "m_values c = sort (m_values (Minterm [0] ''00'') @ m_values (Minterm [1] ''01''))"
    by auto
  with v d h show ?thesis by auto
qed

text \<open>
  C4, as the claim has it, fails: two terms with the same covered list and patterns that
  differ at one position pass the guard "patterns differ or covered lists differ", and
  \<^verbatim>\<open>combine\<close> returns nothing.
\<close>

theorem combine_guard_counterexample:
  "length (m_value (Minterm [0] ''00'')) = length (m_value (Minterm [0] ''01''))
   \<and> \<not> (m_value (Minterm [0] ''00'') = m_value (Minterm [0] ''01'')
        \<and> m_values (Minterm [0] ''00'') = m_values (Minterm [0] ''01''))
   \<and> diff_positions (m_value (Minterm [0] ''00'')) (m_value (Minterm [0] ''01'')) = [1]
   \<and> combine (Minterm [0] ''00'') (Minterm [0] ''01'') = Inr None"
  by code_simp


section \<open>The list of covered values\<close>

lemma use_pow_fields:
  "m_values ((use ^^ j) m) = m_values m \<and> m_value ((use ^^ j) m) = m_value m"
  by (induction j) (simp_all add: use_def)

lemma combine_result_is_constructed:
  "combine a b = Inr (Some c) \<Longrightarrow> \<exists>r. c = Minterm (m_values a @ m_values b) r"
  by (auto simp: combine_def split: if_splits sum.splits option.splits)

text \<open>
  C10. A term is built by the constructor, directly or inside \<^verbatim>\<open>combine\<close>, and then
  only \<^verbatim>\<open>use\<close> changes it. Its list of covered values is sorted throughout, the list of
  a term that \<^verbatim>\<open>combine\<close> returns included, so for two terms with duplicate-free lists
  \<^verbatim>\<open>__eq__\<close> holds exactly when the patterns are equal and the covered sets are equal.
\<close>

theorem covered_list_sorted:
  assumes "a = (use ^^ j) (Minterm vs v)" and "b = (use ^^ k) (Minterm ws w)"
  shows "sorted (m_values a) \<and> sorted (m_values b)
     \<and> (\<forall>c. combine a b = Inr (Some c) \<longrightarrow> sorted (m_values c))
     \<and> (distinct (m_values a) \<and> distinct (m_values b) \<longrightarrow>
          minterm_eq a b = (m_value a = m_value b \<and> set (m_values a) = set (m_values b)))"
proof -
  have sa: "sorted (m_values a)" and sb: "sorted (m_values b)"
    using assms by (simp_all add: use_pow_fields Minterm_def)
  have sc: "\<forall>c. combine a b = Inr (Some c) \<longrightarrow> sorted (m_values c)"
    using combine_result_is_constructed[of a b] by (auto simp: Minterm_def)
  have "m_values a = m_values b" if "distinct (m_values a)" "distinct (m_values b)"
      "set (m_values a) = set (m_values b)"
    using that sa sb by (simp add: sorted_distinct_set_unique)
  with sa sb sc show ?thesis by (auto simp: minterm_eq_def)
qed

theorem covered_list_sorted_witness:
  "sorted (m_values (use (Minterm [5, 1] ''-01'')))
   \<and> minterm_eq (use (Minterm [5, 1] ''-01'')) (Minterm [1, 5] ''-01'')
   \<and> set (m_values (use (Minterm [5, 1] ''-01''))) = set (m_values (Minterm [1, 5] ''-01''))"
proof -
  have a: "use (Minterm [5, 1] ''-01'') = (use ^^ 1) (Minterm [5, 1] ''-01'')" by simp
  have b: "Minterm [1, 5] ''-01'' = (use ^^ 0) (Minterm [1, 5] ''-01'')" by simp
  have d: "distinct (m_values (use (Minterm [5, 1] ''-01'')))
      \<and> distinct (m_values (Minterm [1, 5] ''-01''))"
    by code_simp
  have e: "m_value (use (Minterm [5, 1] ''-01'')) = m_value (Minterm [1, 5] ''-01'')
      \<and> set (m_values (use (Minterm [5, 1] ''-01''))) = set (m_values (Minterm [1, 5] ''-01''))"
    by code_simp
  from covered_list_sorted[OF a b] d e show ?thesis by blast
qed


section \<open>Essential prime implicants\<close>




















lemma use_values [simp]: "m_values (use t) = m_values t"
  by (simp add: use_def)
















end
